theory Spec2Isabelle
  imports Main
begin

section \<open>The retriever assembly interpreter (\<^verbatim>\<open>retriever_asm.py\<close>)\<close>

text \<open>
  The interpreter executes a list of text lines against a list of integers. Python objects
  are modelled as follows: \<^verbatim>\<open>str\<close> as \<open>string\<close> (ASCII text), \<^verbatim>\<open>int\<close> as \<open>int\<close>
  (unbounded), the \<^verbatim>\<open>ram\<close> list as \<open>int list\<close>, the one-element list \<^verbatim>\<open>ic\<close> as an
  \<open>int\<close>, the \<^verbatim>\<open>flags\<close> dictionary (whose three keys never change) as a record, and
  every exception as a value of \<open>py_error\<close>.
\<close>

subsection \<open>Python built-ins used by the interpreter\<close>

datatype py_error = ValueError | IndexError | EOFError

text \<open>The ASCII characters for which \<^verbatim>\<open>str.isspace\<close> holds.\<close>

definition is_space :: "char \<Rightarrow> bool" where
  "is_space c = (c \<in> set [CHR 0x09, CHR 0x0A, CHR 0x0B, CHR 0x0C, CHR 0x0D,
                            CHR 0x1C, CHR 0x1D, CHR 0x1E, CHR 0x1F, CHR '' ''])"

text \<open>\<^verbatim>\<open>s.strip(chars)\<close>: drop leading and trailing characters that occur in \<open>chars\<close>.\<close>

definition strip_chars :: "string \<Rightarrow> string \<Rightarrow> string" where
  "strip_chars chars s =
     rev (dropWhile (\<lambda>c. c \<in> set chars) (rev (dropWhile (\<lambda>c. c \<in> set chars) s)))"

text \<open>\<^verbatim>\<open>s.strip()\<close>: drop leading and trailing whitespace.\<close>

definition py_strip :: "string \<Rightarrow> string" where
  "py_strip s = rev (dropWhile is_space (rev (dropWhile is_space s)))"

text \<open>
  \<^verbatim>\<open>s.split()\<close>: the maximal runs of non-whitespace characters, in order. The second
  argument is the token read so far.
\<close>

fun split_from :: "string \<Rightarrow> string \<Rightarrow> string list" where
  "split_from [] cur = (if cur = [] then [] else [cur])"
| "split_from (c # cs) cur =
     (if is_space c then (if cur = [] then split_from cs [] else cur # split_from cs [])
      else split_from cs (cur @ [c]))"

definition py_split :: "string \<Rightarrow> string list" where
  "py_split s = split_from s []"

text \<open>\<^verbatim>\<open>sep.join(xs)\<close>.\<close>

fun py_join :: "string \<Rightarrow> string list \<Rightarrow> string" where
  "py_join sep [] = []"
| "py_join sep [x] = x"
| "py_join sep (x # y # ys) = x @ sep @ py_join sep (y # ys)"

text \<open>\<^verbatim>\<open>s.lower()\<close> on ASCII letters.\<close>

definition lower_char :: "char \<Rightarrow> char" where
  "lower_char c =
     (case map_of (zip ''ABCDEFGHIJKLMNOPQRSTUVWXYZ'' ''abcdefghijklmnopqrstuvwxyz'') c of
        None \<Rightarrow> c | Some d \<Rightarrow> d)"

definition py_lower :: "string \<Rightarrow> string" where
  "py_lower s = map lower_char s"

text \<open>\<^verbatim>\<open>sub in s\<close> for strings: \<open>sub\<close> occurs as a contiguous piece of \<open>s\<close>.\<close>

fun contains :: "string \<Rightarrow> string \<Rightarrow> bool" where
  "contains [] sub = (sub = [])"
| "contains (c # cs) sub = (take (length sub) (c # cs) = sub \<or> contains cs sub)"

text \<open>
  \<^verbatim>\<open>int(s)\<close> in base 10: surrounding whitespace is dropped, one sign is allowed, then
  decimal digits, where single underscores may separate digits. Anything else raises
  ValueError. On ASCII text the whitespace that \<^verbatim>\<open>int\<close> drops is tab, line feed,
  vertical tab, form feed, carriage return and space; the separators \<open>0x1C\<close> to \<open>0x1F\<close>,
  which \<^verbatim>\<open>strip\<close> and \<^verbatim>\<open>split\<close> treat as whitespace, make it raise ValueError.
\<close>

definition is_int_space :: "char \<Rightarrow> bool" where
  "is_int_space c = (c \<in> set [CHR 0x09, CHR 0x0A, CHR 0x0B, CHR 0x0C, CHR 0x0D, CHR '' ''])"

definition int_strip :: "string \<Rightarrow> string" where
  "int_strip s = rev (dropWhile is_int_space (rev (dropWhile is_int_space s)))"

definition is_digit :: "char \<Rightarrow> bool" where
  "is_digit c = (c \<in> set ''0123456789'')"

definition digit_val :: "char \<Rightarrow> int" where
  "digit_val c =
     (case map_of (zip ''0123456789'' [0, 1, 2, 3, 4, 5, 6, 7, 8, 9]) c of
        None \<Rightarrow> 0 | Some d \<Rightarrow> d)"

text \<open>
  \<open>digits_ok prev s\<close>: \<open>s\<close> continues a literal whose previous character was a digit
  (\<open>prev = True\<close>) or was not (\<open>prev = False\<close>, at the start and after an underscore).
\<close>

fun digits_ok :: "bool \<Rightarrow> string \<Rightarrow> bool" where
  "digits_ok prev [] = prev"
| "digits_ok prev (c # cs) =
     (if is_digit c then digits_ok True cs
      else if c = CHR ''_'' \<and> prev then digits_ok False cs
      else False)"

fun digits_value :: "int \<Rightarrow> string \<Rightarrow> int" where
  "digits_value acc [] = acc"
| "digits_value acc (c # cs) =
     (if is_digit c then digits_value (acc * 10 + digit_val c) cs else digits_value acc cs)"

definition py_int :: "string \<Rightarrow> py_error + int" where
  "py_int s =
     (let t = int_strip s;
          neg = (t \<noteq> [] \<and> hd t = CHR ''-'');
          body = (if t \<noteq> [] \<and> (hd t = CHR ''-'' \<or> hd t = CHR ''+'') then tl t else t)
      in if digits_ok False body
         then Inr (if neg then - digits_value 0 body else digits_value 0 body)
         else Inl ValueError)"

text \<open>
  \<^verbatim>\<open>xs[i]\<close> and \<^verbatim>\<open>xs[i] = v\<close> on a list: a negative index counts from the end, an
  index outside \<open>-len \<le> i < len\<close> raises IndexError.
\<close>

definition list_get :: "'a list \<Rightarrow> int \<Rightarrow> py_error + 'a" where
  "list_get xs i =
     (let n = int (length xs); j = (if i < 0 then i + n else i)
      in if 0 \<le> j \<and> j < n then Inr (xs ! nat j) else Inl IndexError)"

definition list_set :: "'a list \<Rightarrow> int \<Rightarrow> 'a \<Rightarrow> py_error + 'a list" where
  "list_set xs i v =
     (let n = int (length xs); j = (if i < 0 then i + n else i)
      in if 0 \<le> j \<and> j < n then Inr (xs[nat j := v]) else Inl IndexError)"

subsection \<open>Memory and operand resolution\<close>

type_synonym memory = "int list"

text \<open>\<^verbatim>\<open>create_ram(size)\<close> is \<^verbatim>\<open>[0] * size\<close>, which is empty for a negative size.\<close>

definition create_ram :: "int \<Rightarrow> memory" where
  "create_ram n = replicate (nat n) 0"

definition parse_value :: "string \<Rightarrow> memory \<Rightarrow> py_error + int" where
  "parse_value v ram =
     (if CHR ''['' \<in> set v \<and> CHR '']'' \<in> set v
      then (case py_int (strip_chars ''[]'' v) of
              Inl e \<Rightarrow> Inl e
            | Inr i \<Rightarrow> list_get ram i)
      else py_int v)"

text \<open>\<^verbatim>\<open>str(i)\<close> for an integer: its decimal digits, with a minus sign when negative.\<close>

fun digits_of :: "nat \<Rightarrow> string" where
  "digits_of n =
     (if n < 10 then [''0123456789'' ! n]
      else digits_of (n div 10) @ [''0123456789'' ! (n mod 10)])"

declare digits_of.simps [simp del]

definition py_str :: "int \<Rightarrow> string" where
  "py_str i = (if i < 0 then CHR ''-'' # digits_of (nat (- i)) else digits_of (nat i))"

subsection \<open>Flags and channels\<close>

text \<open>
  The dictionary \<^verbatim>\<open>{'less': False, 'equal': False, 'greater': False}\<close>. Standard output
  is the list of texts written so far: a line written by \<^verbatim>\<open>print\<close>, or the prompt
  written by \<^verbatim>\<open>input\<close>. Standard input is the list of lines not read yet.
\<close>

record flag_state =
  less_flag :: bool
  equal_flag :: bool
  greater_flag :: bool

datatype event = Printed string | Prompted string

subsection \<open>Instruction handlers\<close>

text \<open>
  Each handler takes what the Python function takes and returns what it mutates. The
  tuple assignment \<^verbatim>\<open>_, dest, src = instruction.split()\<close> raises ValueError unless there
  are exactly three tokens.
\<close>

definition mov :: "string \<Rightarrow> memory \<Rightarrow> py_error + memory" where
  "mov instruction ram =
     (case py_split instruction of
        [_, _, src] \<Rightarrow>
          (case py_int (strip_chars ''[]'' (py_split instruction ! 1)) of
             Inl e \<Rightarrow> Inl e
           | Inr dest \<Rightarrow>
               (case parse_value src ram of
                  Inl e \<Rightarrow> Inl e
                | Inr v \<Rightarrow> list_set ram dest v))
      | _ \<Rightarrow> Inl ValueError)"

text \<open>
  \<^verbatim>\<open>add\<close>, \<^verbatim>\<open>sub\<close> and \<^verbatim>\<open>mul\<close> differ in the operator only: the common body takes it
  as an argument.
\<close>

definition arith :: "(int \<Rightarrow> int \<Rightarrow> int) \<Rightarrow> string \<Rightarrow> memory \<Rightarrow> py_error + memory" where
  "arith f instruction ram =
     (case py_split instruction of
        [_, _, arg1, arg2] \<Rightarrow>
          (case py_int (strip_chars ''[]'' (py_split instruction ! 1)) of
             Inl e \<Rightarrow> Inl e
           | Inr dest \<Rightarrow>
               (case parse_value arg1 ram of
                  Inl e \<Rightarrow> Inl e
                | Inr a \<Rightarrow>
                    (case parse_value arg2 ram of
                       Inl e \<Rightarrow> Inl e
                     | Inr b \<Rightarrow> list_set ram dest (f a b))))
      | _ \<Rightarrow> Inl ValueError)"

definition add :: "string \<Rightarrow> memory \<Rightarrow> py_error + memory" where
  "add = arith (\<lambda>a b. a + b)"

definition sub :: "string \<Rightarrow> memory \<Rightarrow> py_error + memory" where
  "sub = arith (\<lambda>a b. a - b)"

definition mul :: "string \<Rightarrow> memory \<Rightarrow> py_error + memory" where
  "mul = arith (\<lambda>a b. a * b)"

text \<open>
  \<^verbatim>\<open>div\<close> and \<^verbatim>\<open>mod\<close> print and return before the store when the second operand is 0.
  Python's \<^verbatim>\<open>//\<close> and \<^verbatim>\<open>%\<close> on integers round towards minus infinity, as \<open>div\<close> and
  \<open>mod\<close> on \<open>int\<close> do.
\<close>

definition guarded :: "(int \<Rightarrow> int \<Rightarrow> int) \<Rightarrow> string \<Rightarrow> memory \<Rightarrow> event list
    \<Rightarrow> py_error + memory \<times> event list" where
  "guarded f instruction ram out =
     (case py_split instruction of
        [_, _, arg1, arg2] \<Rightarrow>
          (case py_int (strip_chars ''[]'' (py_split instruction ! 1)) of
             Inl e \<Rightarrow> Inl e
           | Inr dest \<Rightarrow>
               (case parse_value arg1 ram of
                  Inl e \<Rightarrow> Inl e
                | Inr a \<Rightarrow>
                    (case parse_value arg2 ram of
                       Inl e \<Rightarrow> Inl e
                     | Inr b \<Rightarrow>
                         if b = 0 then Inr (ram, out @ [Printed ''Division by zero error''])
                         else (case list_set ram dest (f a b) of
                                 Inl e \<Rightarrow> Inl e
                               | Inr ram' \<Rightarrow> Inr (ram', out)))))
      | _ \<Rightarrow> Inl ValueError)"

definition div_op :: "string \<Rightarrow> memory \<Rightarrow> event list \<Rightarrow> py_error + memory \<times> event list" where
  "div_op = guarded (\<lambda>a b. a div b)"

definition mod_op :: "string \<Rightarrow> memory \<Rightarrow> event list \<Rightarrow> py_error + memory \<times> event list" where
  "mod_op = guarded (\<lambda>a b. a mod b)"

text \<open>
  \<^verbatim>\<open>jmp\<close> returns the new value of \<^verbatim>\<open>ic[0]\<close>. The tests are on the first characters of
  the whole instruction, in the order of the source.
\<close>

definition jmp :: "string \<Rightarrow> memory \<Rightarrow> int \<Rightarrow> flag_state \<Rightarrow> py_error + int" where
  "jmp instruction ram i fl =
     (case py_split instruction of
        _ # target # _ \<Rightarrow>
          (case parse_value target ram of
             Inl e \<Rightarrow> Inl e
           | Inr location \<Rightarrow>
               Inr (if take 2 instruction = ''JL'' then
                      (if less_flag fl then location else i + 1)
                    else if take 2 instruction = ''JG'' then
                      (if greater_flag fl then location else i + 1)
                    else if take 3 instruction = ''JLE'' then
                      (if less_flag fl \<or> equal_flag fl then location else i + 1)
                    else if take 3 instruction = ''JGE'' then
                      (if greater_flag fl \<or> equal_flag fl then location else i + 1)
                    else if take 2 instruction = ''JE'' then
                      (if equal_flag fl then location else i + 1)
                    else if take 3 instruction = ''JNE'' then
                      (if \<not> equal_flag fl then location else i + 1)
                    else location))
      | _ \<Rightarrow> Inl IndexError)"

definition cmp :: "string \<Rightarrow> memory \<Rightarrow> flag_state \<Rightarrow> py_error + flag_state" where
  "cmp instruction ram fl =
     (case py_split instruction of
        [_, arg1, arg2] \<Rightarrow>
          (case parse_value arg1 ram of
             Inl e \<Rightarrow> Inl e
           | Inr a \<Rightarrow>
               (case parse_value arg2 ram of
                  Inl e \<Rightarrow> Inl e
                | Inr b \<Rightarrow>
                    Inr (if a < b then fl\<lparr>less_flag := True, equal_flag := False\<rparr>
                         else if a > b then fl\<lparr>less_flag := False, equal_flag := False\<rparr>
                         else fl\<lparr>less_flag := False, equal_flag := True\<rparr>)))
      | _ \<Rightarrow> Inl ValueError)"

text \<open>
  \<^verbatim>\<open>interrupt\<close>: the print form writes a memory cell or the remaining tokens; the other
  form writes the prompt, reads a line (EOFError when there is none), converts it, and
  stores it.
\<close>

definition interrupt :: "string \<Rightarrow> memory \<Rightarrow> event list \<Rightarrow> string list
    \<Rightarrow> py_error + memory \<times> event list \<times> string list" where
  "interrupt instruction ram out inp =
     (let split_instruction = py_split instruction in
      if contains (py_lower instruction) ''print'' then
        (case split_instruction of
           _ # _ # operand # _ \<Rightarrow>
             if CHR ''['' \<in> set operand then
               (case py_int (strip_chars ''[]'' operand) of
                  Inl e \<Rightarrow> Inl e
                | Inr i \<Rightarrow>
                    (case list_get ram i of
                       Inl e \<Rightarrow> Inl e
                     | Inr v \<Rightarrow> Inr (ram, out @ [Printed (py_str v)], inp)))
             else Inr (ram, out @ [Printed (py_join '' '' (drop 2 split_instruction))], inp)
         | _ \<Rightarrow> Inl IndexError)
      else
        (case inp of
           [] \<Rightarrow> Inl EOFError
         | line # rest \<Rightarrow>
             (case py_int line of
                Inl e \<Rightarrow> Inl e
              | Inr input2 \<Rightarrow>
                  (case split_instruction of
                     _ # _ # operand # _ \<Rightarrow>
                       (case py_int (strip_chars ''[]'' operand) of
                          Inl e \<Rightarrow> Inl e
                        | Inr dest \<Rightarrow>
                            (case list_set ram dest input2 of
                               Inl e \<Rightarrow> Inl e
                             | Inr ram' \<Rightarrow> Inr (ram', out @ [Prompted ''>> ''], rest)))
                   | _ \<Rightarrow> Inl IndexError))))"

definition hlt :: "int \<Rightarrow> int" where
  "hlt i = - 2"

subsection \<open>The fetch-execute loop\<close>

text \<open>
  The variables of \<^verbatim>\<open>run_program\<close>, with the two channels the handlers use.
\<close>

record machine =
  ram :: memory
  ic :: int
  flags :: flag_state
  stdout :: "event list"
  stdin :: "string list"


text \<open>
  What the body of the loop does after a handler: \<open>Continue jump_flag\<close> goes on to the
  test of \<^verbatim>\<open>jump_flag\<close>, \<open>Return\<close> leaves \<^verbatim>\<open>run_program\<close> at once.
\<close>

datatype control = Continue bool | Return

text \<open>
  The chain of tests on the first token. The instruction is stripped and not empty, so
  \<^verbatim>\<open>instruction.split()[0]\<close> exists; were it missing, Python would raise IndexError.
\<close>

definition dispatch :: "string \<Rightarrow> machine \<Rightarrow> py_error + control \<times> machine" where
  "dispatch instruction m =
     (case py_split instruction of
        [] \<Rightarrow> Inl IndexError
      | opcode # _ \<Rightarrow>
          if opcode = ''MOV'' then
            (case mov instruction (ram m) of
               Inl e \<Rightarrow> Inl e | Inr r \<Rightarrow> Inr (Continue False, m\<lparr>ram := r\<rparr>))
          else if opcode = ''ADD'' then
            (case add instruction (ram m) of
               Inl e \<Rightarrow> Inl e | Inr r \<Rightarrow> Inr (Continue False, m\<lparr>ram := r\<rparr>))
          else if opcode = ''SUB'' then
            (case sub instruction (ram m) of
               Inl e \<Rightarrow> Inl e | Inr r \<Rightarrow> Inr (Continue False, m\<lparr>ram := r\<rparr>))
          else if opcode = ''MUL'' then
            (case mul instruction (ram m) of
               Inl e \<Rightarrow> Inl e | Inr r \<Rightarrow> Inr (Continue False, m\<lparr>ram := r\<rparr>))
          else if opcode = ''DIV'' then
            (case div_op instruction (ram m) (stdout m) of
               Inl e \<Rightarrow> Inl e
             | Inr (r, out) \<Rightarrow> Inr (Continue False, m\<lparr>ram := r, stdout := out\<rparr>))
          else if opcode = ''MOD'' then
            (case mod_op instruction (ram m) (stdout m) of
               Inl e \<Rightarrow> Inl e
             | Inr (r, out) \<Rightarrow> Inr (Continue False, m\<lparr>ram := r, stdout := out\<rparr>))
          else if CHR ''J'' \<in> set opcode then
            (case jmp instruction (ram m) (ic m) (flags m) of
               Inl e \<Rightarrow> Inl e | Inr i \<Rightarrow> Inr (Continue True, m\<lparr>ic := i\<rparr>))
          else if opcode = ''CMP'' then
            (case cmp instruction (ram m) (flags m) of
               Inl e \<Rightarrow> Inl e | Inr fl \<Rightarrow> Inr (Continue False, m\<lparr>flags := fl\<rparr>))
          else if opcode = ''HLT'' then Inr (Return, m\<lparr>ic := hlt (ic m)\<rparr>)
          else if opcode = ''INT'' then
            (case interrupt instruction (ram m) (stdout m) (stdin m) of
               Inl e \<Rightarrow> Inl e
             | Inr (r, out, inp) \<Rightarrow>
                 Inr (Continue False, m\<lparr>ram := r, stdout := out, stdin := inp\<rparr>))
          else Inr (Continue False,
                 m\<lparr>stdout := stdout m @ [Printed (''Invalid instruction: '' @ instruction)]\<rparr>))"

datatype status = Running | Halted

text \<open>
  One pass through the body of the \<^verbatim>\<open>while\<close> loop, entered with its test true. The
  variable \<^verbatim>\<open>jump_flag\<close> is False whenever the body is entered (it is reset in the pass
  that set it), so it is local to a pass here.
\<close>

definition cycle :: "string list \<Rightarrow> machine \<Rightarrow> py_error + status \<times> machine" where
  "cycle program m =
     (case list_get program (ic m) of
        Inl e \<Rightarrow> Inl e
      | Inr line \<Rightarrow>
          (let instruction = py_strip line in
           case (if instruction = [] then Inr (Continue False, m) else dispatch instruction m) of
             Inl e \<Rightarrow> Inl e
           | Inr (Return, m') \<Rightarrow> Inr (Halted, m')
           | Inr (Continue jump_flag, m') \<Rightarrow>
               Inr (Running, if \<not> jump_flag then m'\<lparr>ic := ic m' + 1\<rparr> else m')))"

text \<open>
  What a pass does with the line it has fetched: the body of the loop after
  \<^verbatim>\<open>program[ic[0]]\<close> has been read. Lemma \<open>cycle_execute\<close> below shows that \<open>cycle\<close> is
  the fetch followed by this.
\<close>

definition execute :: "string \<Rightarrow> machine \<Rightarrow> py_error + status \<times> machine" where
  "execute line m =
     (let instruction = py_strip line in
      case (if instruction = [] then Inr (Continue False, m) else dispatch instruction m) of
        Inl e \<Rightarrow> Inl e
      | Inr (Return, m') \<Rightarrow> Inr (Halted, m')
      | Inr (Continue jump_flag, m') \<Rightarrow>
          Inr (Running, if \<not> jump_flag then m'\<lparr>ic := ic m' + 1\<rparr> else m'))"

text \<open>
  The loop, with fuel: the number of passes allowed. \<open>None\<close> means the fuel ran out
  before the loop ended; \<open>Some (Inl e)\<close> that an exception left the loop; \<open>Some (Inr m)\<close>
  that \<^verbatim>\<open>run_program\<close> returned in state \<open>m\<close>.
\<close>

fun run_loop :: "nat \<Rightarrow> string list \<Rightarrow> machine \<Rightarrow> (py_error + machine) option" where
  "run_loop 0 program m = (if ic m < int (length program) then None else Some (Inr m))"
| "run_loop (Suc fuel) program m =
     (if ic m < int (length program) then
        (case cycle program m of
           Inl e \<Rightarrow> Some (Inl e)
         | Inr (Halted, m') \<Rightarrow> Some (Inr m')
         | Inr (Running, m') \<Rightarrow> run_loop fuel program m')
      else Some (Inr m))"

definition init_flags :: flag_state where
  "init_flags = \<lparr>less_flag = False, equal_flag = False, greater_flag = False\<rparr>"

definition init_machine :: "memory \<Rightarrow> string list \<Rightarrow> machine" where
  "init_machine mem inp = \<lparr>ram = mem, ic = 0, flags = init_flags, stdout = [], stdin = inp\<rparr>"

definition run_program :: "nat \<Rightarrow> string list \<Rightarrow> memory \<Rightarrow> string list
    \<Rightarrow> (py_error + machine) option" where
  "run_program fuel program mem inp = run_loop fuel program (init_machine mem inp)"

text \<open>
  The instruction counters at which the first \<open>fuel\<close> passes of the loop fetch, in order.
\<close>

fun fetched :: "nat \<Rightarrow> string list \<Rightarrow> machine \<Rightarrow> int list" where
  "fetched 0 program m = []"
| "fetched (Suc fuel) program m =
     (if ic m < int (length program) then
        ic m # (case cycle program m of
                  Inr (Running, m') \<Rightarrow> fetched fuel program m'
                | _ \<Rightarrow> [])
      else [])"


text \<open>
  The machine states in which the first \<open>fuel\<close> passes of the loop begin, in order.
\<close>

fun passes :: "nat \<Rightarrow> string list \<Rightarrow> machine \<Rightarrow> machine list" where
  "passes 0 program m = []"
| "passes (Suc fuel) program m =
     (if ic m < int (length program) then
        m # (case cycle program m of
               Inr (Running, m') \<Rightarrow> passes fuel program m'
             | _ \<Rightarrow> [])
      else [])"

text \<open>
  Whether the pass that begins in \<open>m\<close> is routed to \<open>jmp\<close>, and whether it is routed to
  \<open>cmp\<close>, following the chain of tests of \<open>dispatch\<close>.
\<close>

definition is_branch :: "string list \<Rightarrow> machine \<Rightarrow> bool" where
  "is_branch program m =
     (case list_get program (ic m) of
        Inl e \<Rightarrow> False
      | Inr line \<Rightarrow>
          (case py_split (py_strip line) of
             [] \<Rightarrow> False
           | opcode # _ \<Rightarrow>
               opcode \<notin> set [''MOV'', ''ADD'', ''SUB'', ''MUL'', ''DIV'', ''MOD''] \<and>
               CHR ''J'' \<in> set opcode))"

definition at_cmp :: "string list \<Rightarrow> machine \<Rightarrow> bool" where
  "at_cmp program m =
     (case list_get program (ic m) of
        Inl e \<Rightarrow> False
      | Inr line \<Rightarrow>
          (case py_split (py_strip line) of
             [] \<Rightarrow> False
           | opcode # _ \<Rightarrow> opcode = ''CMP''))"

text \<open>
  The values that branch instructions have written to the counter during the first
  \<open>fuel\<close> passes, in order.
\<close>

fun branch_targets :: "nat \<Rightarrow> string list \<Rightarrow> machine \<Rightarrow> int list" where
  "branch_targets 0 program m = []"
| "branch_targets (Suc fuel) program m =
     (if ic m < int (length program) then
        (case cycle program m of
           Inr (Running, m') \<Rightarrow>
             (if is_branch program m then [ic m'] else []) @ branch_targets fuel program m'
         | _ \<Rightarrow> [])
      else [])"

section \<open>Properties\<close>

subsection \<open>Fetching and dispatching\<close>

lemma py_split_Nil: "py_split [] = []"
  by (simp add: py_split_def)

lemma list_get_range:
  "list_get xs i = Inr v \<Longrightarrow> - int (length xs) \<le> i \<and> i < int (length xs)"
  by (auto simp: list_get_def Let_def split: if_splits)

lemma cycle_execute:
  "cycle program m =
     (case list_get program (ic m) of Inl e \<Rightarrow> Inl e | Inr line \<Rightarrow> execute line m)"
  by (simp add: cycle_def execute_def split: sum.splits)

text \<open>A line with at least one token is not blank, so its pass goes through \<open>dispatch\<close>.\<close>

lemma cycle_dispatch:
  assumes "list_get program (ic m) = Inr line"
    and "py_split (py_strip line) = opcode # rest"
  shows "cycle program m =
     (case dispatch (py_strip line) m of
        Inl e \<Rightarrow> Inl e
      | Inr (Return, m') \<Rightarrow> Inr (Halted, m')
      | Inr (Continue jump_flag, m') \<Rightarrow>
          Inr (Running, if \<not> jump_flag then m'\<lparr>ic := ic m' + 1\<rparr> else m'))"
proof -
  have "py_strip line \<noteq> []"
    using assms(2) py_split_Nil by auto
  then show ?thesis
    using assms(1) by (simp add: cycle_def Let_def)
qed

lemma cycle_div_zero:
  assumes "list_get program (ic m) = Inr line"
    and "py_split (py_strip line) = [opcode, d, a1, a2]"
    and "opcode = ''DIV'' \<or> opcode = ''MOD''"
    and "py_int (strip_chars ''[]'' d) = Inr dest"
    and "parse_value a1 (ram m) = Inr x"
    and "parse_value a2 (ram m) = Inr 0"
  shows "cycle program m =
           Inr (Running, m\<lparr>ic := ic m + 1,
                  stdout := stdout m @ [Printed ''Division by zero error'']\<rparr>)"
proof -
  have g: "guarded f (py_strip line) (ram m) (stdout m) =
        Inr (ram m, stdout m @ [Printed ''Division by zero error''])" for f
    using assms(2,4,5,6) by (simp add: guarded_def)
  have "dispatch (py_strip line) m =
      Inr (Continue False, m\<lparr>stdout := stdout m @ [Printed ''Division by zero error'']\<rparr>)"
    using assms(2,3) g by (auto simp: dispatch_def div_op_def mod_op_def)
  then show ?thesis
    using cycle_dispatch [OF assms(1,2)] by simp
qed

lemma cycle_mov:
  assumes "list_get program (ic m) = Inr line"
    and "py_split (py_strip line) = [''MOV'', d, s]"
    and "py_int (strip_chars ''[]'' d) = Inr dest"
    and "0 \<le> dest" and "dest < int (length (ram m))"
    and "parse_value s (ram m) = Inr v"
  shows "cycle program m = Inr (Running, m\<lparr>ram := (ram m)[nat dest := v], ic := ic m + 1\<rparr>)"
proof -
  have "mov (py_strip line) (ram m) = Inr ((ram m)[nat dest := v])"
    using assms(2-6) by (simp add: mov_def list_set_def)
  then have "dispatch (py_strip line) m =
      Inr (Continue False, m\<lparr>ram := (ram m)[nat dest := v]\<rparr>)"
    using assms(2) by (simp add: dispatch_def)
  then show ?thesis
    using cycle_dispatch [OF assms(1,2)] by simp
qed

lemma cycle_hlt:
  assumes "list_get program (ic m) = Inr line"
    and "py_split (py_strip line) = ''HLT'' # rest"
  shows "cycle program m = Inr (Halted, m\<lparr>ic := - 2\<rparr>)"
proof -
  have "dispatch (py_strip line) m = Inr (Return, m\<lparr>ic := - 2\<rparr>)"
    using assms(2) by (simp add: dispatch_def hlt_def)
  then show ?thesis
    using cycle_dispatch [OF assms(1,2)] by simp
qed

text \<open>The first token of a stripped line is a prefix of that line.\<close>

lemma split_from_prefix:
  "split_from s cur = tok # toks \<Longrightarrow> cur \<noteq> [] \<or> (s \<noteq> [] \<and> \<not> is_space (hd s))
     \<Longrightarrow> \<exists>r. cur @ s = tok @ r"
proof (induction s arbitrary: cur)
  case Nil
  then show ?case by (auto split: if_splits)
next
  case (Cons c cs)
  show ?case
  proof (cases "is_space c")
    case True
    with Cons.prems show ?thesis by (auto split: if_splits)
  next
    case False
    with Cons.prems have "split_from cs (cur @ [c]) = tok # toks" by simp
    then have "\<exists>r. (cur @ [c]) @ cs = tok @ r"
      by (rule Cons.IH) simp
    then show ?thesis by simp
  qed
qed

lemma hd_py_strip: "py_strip s \<noteq> [] \<Longrightarrow> \<not> is_space (hd (py_strip s))"
proof -
  define a where "a = dropWhile is_space s"
  define b where "b = dropWhile is_space (rev a)"
  assume "py_strip s \<noteq> []"
  then have b: "b \<noteq> []" by (simp add: py_strip_def a_def b_def)
  then have a: "a \<noteq> []" by (auto simp: b_def)
  have "rev a = takeWhile is_space (rev a) @ b" by (simp add: b_def)
  then have "last (rev a) = last b" using b by (metis last_appendR)
  then have "hd (rev b) = hd a" using a b by (simp add: hd_rev last_rev)
  moreover have "\<not> is_space (hd a)" using a unfolding a_def by (rule hd_dropWhile)
  ultimately show ?thesis by (simp add: py_strip_def a_def b_def)
qed

lemma first_token_prefix:
  assumes "py_split (py_strip line) = opcode # rest"
  shows "\<exists>r. py_strip line = opcode @ r"
proof -
  have ne: "py_strip line \<noteq> []" using assms by (auto simp: py_split_def)
  from split_from_prefix [of "py_strip line" "[]" opcode rest] assms ne hd_py_strip [OF ne]
  show ?thesis by (simp add: py_split_def)
qed

text \<open>A pass routed to \<open>jmp\<close> ends with the counter \<open>jmp\<close> returned: the loop adds nothing.\<close>

lemma cycle_branch:
  assumes "list_get program (ic m) = Inr line"
    and "py_split (py_strip line) = opcode # rest"
    and "CHR ''J'' \<in> set opcode"
    and "jmp (py_strip line) (ram m) (ic m) (flags m) = Inr i"
  shows "cycle program m = Inr (Running, m\<lparr>ic := i\<rparr>)"
proof -
  have "opcode \<noteq> ''MOV''" "opcode \<noteq> ''ADD''" "opcode \<noteq> ''SUB''"
    "opcode \<noteq> ''MUL''" "opcode \<noteq> ''DIV''" "opcode \<noteq> ''MOD''"
    using assms(3) by auto
  then have "dispatch (py_strip line) m = Inr (Continue True, m\<lparr>ic := i\<rparr>)"
    using assms(2,3,4) by (simp add: dispatch_def)
  then show ?thesis
    using cycle_dispatch [OF assms(1,2)] by simp
qed

text \<open>Every other pass that goes on advances the counter by one.\<close>

lemma dispatch_no_branch:
  assumes "dispatch instruction m = Inr (c, m')"
    and "py_split instruction = opcode # rest"
    and "CHR ''J'' \<notin> set opcode"
  shows "ic m' = ic m \<and> c = Continue False \<or> c = Return"
  using assms
  by (auto simp: dispatch_def split: if_splits sum.splits prod.splits)

lemma cycle_sequential:
  assumes "cycle program m = Inr (Running, m')" and "\<not> is_branch program m"
  shows "ic m' = ic m + 1"
proof -
  obtain line where line: "list_get program (ic m) = Inr line"
    using assms(1) by (auto simp: cycle_def split: sum.splits)
  show ?thesis
  proof (cases "py_split (py_strip line)")
    case Nil
    then show ?thesis
      using assms(1) line
      by (auto simp: cycle_def dispatch_def Let_def split: if_splits)
  next
    case (Cons opcode rest)
    then have nj: "CHR ''J'' \<notin> set opcode"
      using assms(2) line by (auto simp: is_branch_def)
    obtain c m1 where d: "dispatch (py_strip line) m = Inr (c, m1)"
      using assms(1) cycle_dispatch [OF line Cons]
      by (auto split: sum.splits)
    from dispatch_no_branch [OF d Cons nj] assms(1) cycle_dispatch [OF line Cons] d
    show ?thesis by auto
  qed
qed

text \<open>Only \<open>cmp\<close> changes the flags.\<close>

lemma dispatch_flags:
  assumes "dispatch instruction m = Inr (c, m')"
    and "py_split instruction = opcode # rest"
    and "opcode \<noteq> ''CMP''"
  shows "flags m' = flags m"
  using assms
  by (auto simp: dispatch_def split: if_splits sum.splits prod.splits)

lemma cycle_flags:
  assumes "cycle program m = Inr (st, m')"
    and "list_get program (ic m) = Inr line"
    and "\<forall>rest. py_split (py_strip line) \<noteq> ''CMP'' # rest"
  shows "flags m' = flags m"
proof (cases "py_split (py_strip line)")
  case Nil
  then show ?thesis
    using assms(1,2) by (auto simp: cycle_def dispatch_def Let_def split: if_splits)
next
  case (Cons opcode rest)
  then have op: "opcode \<noteq> ''CMP''" using assms(3) by simp
  obtain c m1 where d: "dispatch (py_strip line) m = Inr (c, m1)"
    using assms(1) cycle_dispatch [OF assms(2) Cons]
    by (auto split: sum.splits)
  have "flags m1 = flags m"
    using d Cons op by (rule dispatch_flags)
  then show ?thesis
    using assms(1) cycle_dispatch [OF assms(2) Cons] d
    by (auto split: control.splits if_splits)
qed

lemma flags_until_cmp:
  "\<forall>q\<in>set (passes fuel program m). \<not> at_cmp program q \<Longrightarrow>
     s \<in> set (passes fuel program m) \<Longrightarrow> flags s = flags m"
proof (induction fuel arbitrary: m)
  case 0
  then show ?case by simp
next
  case (Suc fuel)
  show ?case
  proof (cases "s = m")
    case True
    then show ?thesis by simp
  next
    case False
    with Suc.prems(2) have lt: "ic m < int (length program)"
      by (auto split: if_splits)
    with False Suc.prems(2) obtain m' where
      c: "cycle program m = Inr (Running, m')" and
      s: "s \<in> set (passes fuel program m')"
      by (cases "cycle program m") (auto split: prod.splits status.splits)
    have nc: "\<not> at_cmp program m"
      using Suc.prems(1) lt by simp
    obtain line where line: "list_get program (ic m) = Inr line"
      using c by (auto simp: cycle_def split: sum.splits)
    have "\<forall>rest. py_split (py_strip line) \<noteq> ''CMP'' # rest"
      using nc line by (auto simp: at_cmp_def)
    with c line have "flags m' = flags m"
      by (rule cycle_flags)
    moreover have "\<forall>q\<in>set (passes fuel program m'). \<not> at_cmp program q"
      using Suc.prems(1) lt c by simp
    then have "flags s = flags m'"
      using s by (rule Suc.IH)
    ultimately show ?thesis by simp
  qed
qed

text \<open>The counters at which the loop fetches.\<close>

lemma fetched_upper: "i \<in> set (fetched fuel program m) \<Longrightarrow> i < int (length program)"
proof (induction fuel arbitrary: m)
  case 0
  then show ?case by simp
next
  case (Suc fuel)
  then show ?case
    by (auto split: if_splits sum.splits prod.splits status.splits)
qed

lemma fetched_lower:
  "0 \<le> ic m \<Longrightarrow> \<forall>t\<in>set (branch_targets fuel program m). 0 \<le> t \<Longrightarrow>
     i \<in> set (fetched fuel program m) \<Longrightarrow> 0 \<le> i"
proof (induction fuel arbitrary: m)
  case 0
  then show ?case by simp
next
  case (Suc fuel)
  show ?case
  proof (cases "i = ic m")
    case True
    then show ?thesis using Suc.prems(1) by simp
  next
    case False
    with Suc.prems(3) have lt: "ic m < int (length program)"
      by (auto split: if_splits)
    with False Suc.prems(3) obtain m' where
      c: "cycle program m = Inr (Running, m')" and
      i: "i \<in> set (fetched fuel program m')"
      by (cases "cycle program m") (auto split: prod.splits status.splits)
    have "0 \<le> ic m'"
    proof (cases "is_branch program m")
      case True
      then show ?thesis using Suc.prems(2) lt c by simp
    next
      case False
      then show ?thesis using cycle_sequential [OF c] Suc.prems(1) by simp
    qed
    moreover have "\<forall>t\<in>set (branch_targets fuel program m'). 0 \<le> t"
      using Suc.prems(2) lt c by simp
    ultimately show ?thesis using i by (rule Suc.IH)
  qed
qed

subsection \<open>Comparison and the flags\<close>

text \<open>No comparison changes the \<open>greater\<close> flag.\<close>

lemma cmp_keeps_greater:
  "cmp instruction mem fl = Inr fl' \<Longrightarrow> greater_flag fl' = greater_flag fl"
  by (auto simp: cmp_def split: list.splits sum.splits if_splits)

text \<open>
  C1. After \<^verbatim>\<open>CMP a, b\<close> exactly one of the three flags should be true, and for \<open>a > b\<close>
  it should be \<open>greater\<close>. The handler never assigns \<^verbatim>\<open>flags['greater']\<close>: comparing 5
  with 3 from the initial flags leaves all three flags false.
\<close>

theorem cmp_greater_never_set:
  "cmp ''CMP 5 3'' [] init_flags =
     Inr \<lparr>less_flag = False, equal_flag = False, greater_flag = False\<rparr>"
  by (simp add: cmp_def py_split_def is_space_def parse_value_def py_int_def int_strip_def
      is_int_space_def
      is_digit_def digit_val_def init_flags_def)

subsection \<open>Branches\<close>

text \<open>
  C2. \<^verbatim>\<open>JLE\<close> should branch when \<open>equal\<close> is set, and so should \<^verbatim>\<open>JGE\<close>. The handler
  tests the first two characters against \<^verbatim>\<open>JL\<close> and \<^verbatim>\<open>JG\<close> before it tests three
  characters against \<^verbatim>\<open>JLE\<close> and \<^verbatim>\<open>JGE\<close>, so both are handled as their two-letter
  forms: with only \<open>equal\<close> set, at counter 1, each advances to 2 and not to the target 7.
\<close>

theorem jle_jge_dispatched_as_jl_jg:
  "jmp ''JLE 7'' [] 1 \<lparr>less_flag = False, equal_flag = True, greater_flag = False\<rparr> = Inr 2 \<and>
   jmp ''JGE 7'' [] 1 \<lparr>less_flag = False, equal_flag = True, greater_flag = False\<rparr> = Inr 2"
  by (simp add: jmp_def py_split_def is_space_def parse_value_def py_int_def int_strip_def
      is_int_space_def
      is_digit_def digit_val_def)

text \<open>
  C3. After \<^verbatim>\<open>CMP 5 3\<close> a \<^verbatim>\<open>JG 3\<close> should jump over the \<^verbatim>\<open>MOV\<close> to the \<^verbatim>\<open>HLT\<close>. The
  \<open>greater\<close> flag is still false, so the branch is not taken and the \<^verbatim>\<open>MOV\<close> runs.
\<close>

theorem jg_after_cmp_not_taken:
  "run_program 4 [''CMP 5 3'', ''JG 3'', ''MOV [0] 1'', ''HLT''] (create_ram 1) [] =
     Some (Inr \<lparr>ram = [1], ic = - 2, flags = init_flags, stdout = [], stdin = []\<rparr>)"
  by code_simp

text \<open>
  C7. A branch whose condition holds should set the counter to its target. After
  \<^verbatim>\<open>CMP 3 3\<close> the condition of \<^verbatim>\<open>JLE 3\<close> (less or equal) holds, yet the counter advances
  by one and the \<^verbatim>\<open>MOV\<close> that the branch should skip runs.
\<close>

theorem jle_condition_holds_not_taken:
  "run_program 4 [''CMP 3 3'', ''JLE 3'', ''MOV [0] 1'', ''HLT''] (create_ram 1) [] =
     Some (Inr \<lparr>ram = [1], ic = - 2,
             flags = \<lparr>less_flag = False, equal_flag = True, greater_flag = False\<rparr>,
             stdout = [], stdin = []\<rparr>)"
  by code_simp

text \<open>With all three flags false, \<open>jmp\<close> takes \<^verbatim>\<open>JNE\<close> only.\<close>

lemma jmp_init:
  assumes "py_split instruction = opcode # target # rest"
    and "instruction = opcode @ r"
    and "parse_value target mem = Inr t"
  shows "(opcode = ''JNE'' \<longrightarrow> jmp instruction mem i init_flags = Inr t) \<and>
         (opcode \<in> {''JE'', ''JL'', ''JG'', ''JLE'', ''JGE''} \<longrightarrow>
            jmp instruction mem i init_flags = Inr (i + 1))"
  using assms by (auto simp: jmp_def init_flags_def)

lemma branch_init_flags:
  assumes "list_get program (ic m) = Inr line"
    and "py_split (py_strip line) = opcode # target # rest"
    and "parse_value target (ram m) = Inr t"
    and "flags m = init_flags"
  shows "(opcode = ''JNE'' \<longrightarrow> cycle program m = Inr (Running, m\<lparr>ic := t\<rparr>)) \<and>
         (opcode \<in> {''JE'', ''JL'', ''JG'', ''JLE'', ''JGE''} \<longrightarrow>
            cycle program m = Inr (Running, m\<lparr>ic := ic m + 1\<rparr>))"
proof -
  obtain r where r: "py_strip line = opcode @ r"
    using first_token_prefix [OF assms(2)] by blast
  note j = jmp_init [OF assms(2) r assms(3), of "ic m"]
  have ne: "cycle program m = Inr (Running, m\<lparr>ic := t\<rparr>)" if "opcode = ''JNE''"
  proof -
    have "CHR ''J'' \<in> set opcode" using that by simp
    moreover have "jmp (py_strip line) (ram m) (ic m) (flags m) = Inr t"
      using j that assms(4) by simp
    ultimately show ?thesis
      using cycle_branch [OF assms(1,2)] by blast
  qed
  have ot: "cycle program m = Inr (Running, m\<lparr>ic := ic m + 1\<rparr>)"
    if "opcode \<in> {''JE'', ''JL'', ''JG'', ''JLE'', ''JGE''}"
  proof -
    have "CHR ''J'' \<in> set opcode" using that by auto
    moreover have "jmp (py_strip line) (ram m) (ic m) init_flags = Inr (ic m + 1)"
      using j that by blast
    ultimately show ?thesis
      using cycle_branch [OF assms(1,2)] assms(4) by simp
  qed
  show ?thesis
    using ne ot by blast
qed

text \<open>
  C10. A run starts with all three flags false, and they stay so while no pass is a
  \<^verbatim>\<open>CMP\<close>. In every state \<open>s\<close> of such a run, a branch instruction whose target
  resolves to \<open>t\<close> behaves as follows: \<^verbatim>\<open>JNE\<close> sets the counter to \<open>t\<close>; \<^verbatim>\<open>JE\<close>,
  \<^verbatim>\<open>JL\<close>, \<^verbatim>\<open>JG\<close>, \<^verbatim>\<open>JLE\<close> and \<^verbatim>\<open>JGE\<close> advance it by one.
\<close>

theorem branches_before_cmp:
  assumes "s \<in> set (passes fuel program (init_machine mem inp))"
    and "\<forall>q\<in>set (passes fuel program (init_machine mem inp)). \<not> at_cmp program q"
    and "list_get program (ic s) = Inr line"
    and "py_split (py_strip line) = opcode # target # rest"
    and "parse_value target (ram s) = Inr t"
  shows "flags s = \<lparr>less_flag = False, equal_flag = False, greater_flag = False\<rparr> \<and>
         (opcode = ''JNE'' \<longrightarrow> cycle program s = Inr (Running, s\<lparr>ic := t\<rparr>)) \<and>
         (opcode \<in> {''JE'', ''JL'', ''JG'', ''JLE'', ''JGE''} \<longrightarrow>
            cycle program s = Inr (Running, s\<lparr>ic := ic s + 1\<rparr>))"
proof -
  have "flags s = flags (init_machine mem inp)"
    using assms(2,1) by (rule flags_until_cmp)
  then have f: "flags s = init_flags"
    by (simp add: init_machine_def)
  from branch_init_flags [OF assms(3,4,5) f] f show ?thesis
    by (simp add: init_flags_def)
qed

theorem branches_before_cmp_witness:
  "(let program = [''MOV [0] 4'', ''JLE 5'', ''JNE 7''];
        s = \<lparr>ram = [4], ic = 1, flags = init_flags, stdout = [], stdin = []\<rparr>
    in passes (Suc (Suc 0)) program (init_machine [0] []) = [init_machine [0] [], s] \<and>
       cycle program s = Inr (Running, s\<lparr>ic := 2\<rparr>) \<and>
       cycle program (s\<lparr>ic := 2\<rparr>) = Inr (Running, s\<lparr>ic := 7\<rparr>))"
proof -
  let ?p = "[''MOV [0] 4'', ''JLE 5'', ''JNE 7'']"
  let ?s = "\<lparr>ram = [4], ic = 1, flags = init_flags, stdout = [], stdin = []\<rparr>"
  let ?u = "\<lparr>ram = [4], ic = 2, flags = init_flags, stdout = [], stdin = []\<rparr>"
  have tr: "passes (Suc (Suc (Suc 0))) ?p (init_machine [0] []) = [init_machine [0] [], ?s, ?u]"
    by code_simp
  have tr2: "passes (Suc (Suc 0)) ?p (init_machine [0] []) = [init_machine [0] [], ?s]"
    by code_simp
  have nc: "\<not> at_cmp ?p (init_machine [0] [])" "\<not> at_cmp ?p ?s" "\<not> at_cmp ?p ?u"
    by code_simp+
  have a: "\<forall>q\<in>set (passes (Suc (Suc (Suc 0))) ?p (init_machine [0] [])). \<not> at_cmp ?p q"
    unfolding tr using nc by simp
  have s: "?s \<in> set (passes (Suc (Suc (Suc 0))) ?p (init_machine [0] []))"
    and u: "?u \<in> set (passes (Suc (Suc (Suc 0))) ?p (init_machine [0] []))"
    unfolding tr by simp_all
  have 1: "list_get ?p (ic ?s) = Inr ''JLE 5''" and 2: "list_get ?p (ic ?u) = Inr ''JNE 7''"
    by (simp_all add: list_get_def)
  have 3: "py_split (py_strip ''JLE 5'') = ''JLE'' # ''5'' # []"
    and 4: "py_split (py_strip ''JNE 7'') = ''JNE'' # ''7'' # []"
    by code_simp+
  have 5: "parse_value ''5'' (ram ?s) = Inr 5" and 6: "parse_value ''7'' (ram ?u) = Inr 7"
    by code_simp+
  from branches_before_cmp [OF s a 1 3 5] branches_before_cmp [OF u a 2 4 6] tr2
  show ?thesis
    by (simp add: Let_def del: passes.simps)
qed

subsection \<open>Division by zero\<close>

text \<open>
  C6. A \<^verbatim>\<open>DIV\<close> or \<^verbatim>\<open>MOD\<close> whose second source operand resolves to 0 is abandoned:
  the pass ends in the running state with the memory and the flags as they were, the
  message written to standard output, and the counter advanced by one; the loop goes
  on from that state.
\<close>

theorem div_mod_by_zero_recovers:
  assumes "list_get program (ic m) = Inr line"
    and "py_split (py_strip line) = [opcode, d, a1, a2]"
    and "opcode = ''DIV'' \<or> opcode = ''MOD''"
    and "py_int (strip_chars ''[]'' d) = Inr dest"
    and "parse_value a1 (ram m) = Inr x"
    and "parse_value a2 (ram m) = Inr 0"
  shows "(let m' = m\<lparr>ic := ic m + 1,
                   stdout := stdout m @ [Printed ''Division by zero error'']\<rparr>
          in cycle program m = Inr (Running, m') \<and> ram m' = ram m \<and> flags m' = flags m \<and>
             run_loop (Suc fuel) program m = run_loop fuel program m')"
proof -
  have "ic m < int (length program)"
    using list_get_range [OF assms(1)] by simp
  then show ?thesis
    using cycle_div_zero [OF assms] by (simp add: Let_def)
qed

theorem div_mod_by_zero_recovers_witness:
  "(let m = \<lparr>ram = [10, 0, 7], ic = 1, flags = init_flags, stdout = [], stdin = []\<rparr>;
        program = [''MOV [0] 10'', ''DIV [2] [0] [1]'', ''HLT'']
    in parse_value ''[1]'' (ram m) = Inr 0 \<and>
       cycle program m =
         Inr (Running, m\<lparr>ic := 2, stdout := [Printed ''Division by zero error'']\<rparr>) \<and>
       run_loop (Suc (Suc 0)) program m =
         Some (Inr (m\<lparr>ic := - 2, stdout := [Printed ''Division by zero error'']\<rparr>)))"
proof -
  let ?m = "\<lparr>ram = [10, 0, 7], ic = 1, flags = init_flags, stdout = [], stdin = []\<rparr>"
  let ?program = "[''MOV [0] 10'', ''DIV [2] [0] [1]'', ''HLT'']"
  have 1: "list_get ?program (ic ?m) = Inr ''DIV [2] [0] [1]''"
    by (simp add: list_get_def)
  have 2: "py_split (py_strip ''DIV [2] [0] [1]'') = [''DIV'', ''[2]'', ''[0]'', ''[1]'']"
    by code_simp
  have 3: "py_int (strip_chars ''[]'' ''[2]'') = Inr 2"
    by code_simp
  have 4: "parse_value ''[0]'' (ram ?m) = Inr 10"
    by code_simp
  have 5: "parse_value ''[1]'' (ram ?m) = Inr 0"
    by code_simp
  have 6: "run_loop (Suc 0) ?program
             (?m\<lparr>ic := 2, stdout := [Printed ''Division by zero error'']\<rparr>) =
           Some (Inr (?m\<lparr>ic := - 2, stdout := [Printed ''Division by zero error'']\<rparr>))"
    by code_simp
  from div_mod_by_zero_recovers [OF 1 2 _ 3 4 5, of "Suc 0"] 5 6 show ?thesis
    by (simp add: Let_def del: run_loop.simps)
qed

subsection \<open>Data movement\<close>

text \<open>
  Operands are separated by whitespace alone. A comma after the destination stays in
  the token, and the conversion of the destination index raises ValueError.
\<close>

lemma mov_comma_operand: "mov ''MOV [0], 5'' [0, 0, 0] = Inl ValueError"
  by code_simp

text \<open>
  C8. A valid \<^verbatim>\<open>MOV dest, src\<close> (three tokens, a destination index inside the memory, a
  source that resolves) stores the resolved source at \<open>dest\<close> and changes no other cell;
  the flags and both channels are as before and the counter has advanced by one.
\<close>

theorem mov_frame:
  assumes "list_get program (ic m) = Inr line"
    and "py_split (py_strip line) = [''MOV'', d, s]"
    and "py_int (strip_chars ''[]'' d) = Inr dest"
    and "0 \<le> dest" and "dest < int (length (ram m))"
    and "parse_value s (ram m) = Inr v"
  shows "(let m' = m\<lparr>ram := (ram m)[nat dest := v], ic := ic m + 1\<rparr>
          in cycle program m = Inr (Running, m') \<and>
             ram m' ! nat dest = v \<and>
             (\<forall>j. j \<noteq> nat dest \<longrightarrow> ram m' ! j = ram m ! j) \<and>
             length (ram m') = length (ram m) \<and>
             flags m' = flags m \<and> ic m' = ic m + 1 \<and>
             stdout m' = stdout m \<and> stdin m' = stdin m)"
  using cycle_mov [OF assms] assms(4,5) by (simp add: Let_def)

theorem mov_frame_witness:
  "(let m = \<lparr>ram = [4, 5, 6], ic = 0, flags = init_flags, stdout = [], stdin = []\<rparr>
    in parse_value ''[2]'' (ram m) = Inr 6 \<and>
       cycle [''MOV [1] [2]''] m = Inr (Running, m\<lparr>ram := [4, 6, 6], ic := 1\<rparr>))"
proof -
  let ?m = "\<lparr>ram = [4, 5, 6], ic = 0, flags = init_flags, stdout = [], stdin = []\<rparr>"
  have 1: "list_get [''MOV [1] [2]''] (ic ?m) = Inr ''MOV [1] [2]''"
    by (simp add: list_get_def)
  have 2: "py_split (py_strip ''MOV [1] [2]'') = [''MOV'', ''[1]'', ''[2]'']"
    by code_simp
  have 3: "py_int (strip_chars ''[]'' ''[1]'') = Inr 1"
    by code_simp
  have 4: "parse_value ''[2]'' (ram ?m) = Inr 6"
    by code_simp
  from mov_frame [OF 1 2 3 _ _ 4] 4 show ?thesis
    by (simp add: Let_def)
qed

subsection \<open>Halting\<close>

text \<open>
  C9. A pass whose instruction has \<^verbatim>\<open>HLT\<close> as its first token sets the counter to the
  value of \<open>hlt\<close>, which is no index \<open>0 \<le> i < len(program)\<close>, and the loop returns at once
  with the memory untouched. The program that is the single line \<^verbatim>\<open>HLT\<close> returns with
  the memory of \<open>create_ram\<close> still all zero.
\<close>

theorem hlt_ends_run:
  assumes "list_get program (ic m) = Inr line"
    and "py_split (py_strip line) = ''HLT'' # rest"
  shows "cycle program m = Inr (Halted, m\<lparr>ic := hlt (ic m)\<rparr>) \<and>
         run_loop (Suc fuel) program m = Some (Inr (m\<lparr>ic := hlt (ic m)\<rparr>)) \<and>
         \<not> (0 \<le> hlt (ic m) \<and> hlt (ic m) < int (length program)) \<and>
         run_program (Suc fuel) [''HLT''] (create_ram n) inp =
           Some (Inr \<lparr>ram = replicate (nat n) 0, ic = - 2, flags = init_flags,
                   stdout = [], stdin = inp\<rparr>)"
proof -
  have lt: "ic m < int (length program)"
    using list_get_range [OF assms(1)] by simp
  have c: "cycle program m = Inr (Halted, m\<lparr>ic := hlt (ic m)\<rparr>)"
    using cycle_hlt [OF assms] by (simp add: hlt_def)
  have l: "run_loop (Suc fuel) program m = Some (Inr (m\<lparr>ic := hlt (ic m)\<rparr>))"
    using lt c by simp
  have f: "list_get [''HLT''] (ic (init_machine (create_ram n) inp)) = Inr ''HLT''"
    by (simp add: list_get_def init_machine_def)
  have t: "py_split (py_strip ''HLT'') = ''HLT'' # []"
    by code_simp
  have "cycle [''HLT''] (init_machine (create_ram n) inp) =
          Inr (Halted, (init_machine (create_ram n) inp)\<lparr>ic := - 2\<rparr>)"
    using f t by (rule cycle_hlt)
  then have r: "run_program (Suc fuel) [''HLT''] (create_ram n) inp =
      Some (Inr \<lparr>ram = replicate (nat n) 0, ic = - 2, flags = init_flags,
              stdout = [], stdin = inp\<rparr>)"
    by (simp add: run_program_def init_machine_def create_ram_def)
  show ?thesis
    using c l r by (simp add: hlt_def)
qed

theorem hlt_ends_run_witness:
  "(let m = \<lparr>ram = [3, 4], ic = 1, flags = init_flags, stdout = [], stdin = []\<rparr>
    in py_split (py_strip '' HLT now '') = [''HLT'', ''now''] \<and>
       run_loop (Suc 0) [''MOV [0] 9'', '' HLT now '', ''MOV [1] 9''] m = Some (Inr (m\<lparr>ic := - 2\<rparr>)))"
proof -
  let ?m = "\<lparr>ram = [3, 4], ic = 1, flags = init_flags, stdout = [], stdin = []\<rparr>"
  have 1: "list_get [''MOV [0] 9'', '' HLT now '', ''MOV [1] 9''] (ic ?m) = Inr '' HLT now ''"
    by (simp add: list_get_def)
  have 2: "py_split (py_strip '' HLT now '') = ''HLT'' # [''now'']"
    by code_simp
  from hlt_ends_run [OF 1 2, of 0] 2 show ?thesis
    by (simp add: Let_def hlt_def del: run_loop.simps)
qed

subsection \<open>The counter at fetch time\<close>

text \<open>
  C4, as the code has it. At every fetch the counter is below the length of the program.
  It is also at least 0 at every fetch of a run that starts at a counter of at least 0,
  as long as every value a branch instruction has written to the counter is at least 0.
  A negative value written by a branch instruction is not rejected: the pass ends in the
  running state with the counter at that value, and the next fetch is made at that
  negative counter. A fetch at a counter \<open>-len(program) \<le> ic < 0\<close> reads the line counted
  from the end, \<open>program[len(program) + ic]\<close>, and the pass executes that line; a fetch at a
  counter below \<open>-len(program)\<close> raises IndexError.
\<close>

theorem fetch_bounds:
  "(\<forall>i\<in>set (fetched fuel program m). i < int (length program)) \<and>
   (0 \<le> ic m \<and> (\<forall>t\<in>set (branch_targets fuel program m). 0 \<le> t) \<longrightarrow>
      (\<forall>i\<in>set (fetched fuel program m). 0 \<le> i)) \<and>
   (list_get program (ic m) = Inr line \<and> py_split (py_strip line) = opcode # rest \<and>
    CHR ''J'' \<in> set opcode \<and> jmp (py_strip line) (ram m) (ic m) (flags m) = Inr t \<and> t < 0 \<longrightarrow>
      cycle program m = Inr (Running, m\<lparr>ic := t\<rparr>) \<and>
      take 2 (fetched (Suc (Suc fuel)) program m) = [ic m, t]) \<and>
   (- int (length program) \<le> ic m \<and> ic m < 0 \<longrightarrow>
      list_get program (ic m) = Inr (program ! nat (ic m + int (length program))) \<and>
      cycle program m = execute (program ! nat (ic m + int (length program))) m) \<and>
   (ic m < - int (length program) \<longrightarrow> cycle program m = Inl IndexError)"
proof -
  have upper: "\<forall>i\<in>set (fetched fuel program m). i < int (length program)"
    using fetched_upper by blast
  have lower: "\<forall>i\<in>set (fetched fuel program m). 0 \<le> i"
    if "0 \<le> ic m \<and> (\<forall>t\<in>set (branch_targets fuel program m). 0 \<le> t)"
    using that fetched_lower by blast
  have branch: "cycle program m = Inr (Running, m\<lparr>ic := t\<rparr>) \<and>
      take 2 (fetched (Suc (Suc fuel)) program m) = [ic m, t]"
    if h: "list_get program (ic m) = Inr line \<and> py_split (py_strip line) = opcode # rest \<and>
      CHR ''J'' \<in> set opcode \<and> jmp (py_strip line) (ram m) (ic m) (flags m) = Inr t \<and> t < 0"
  proof -
    have c: "cycle program m = Inr (Running, m\<lparr>ic := t\<rparr>)"
      using h cycle_branch [of program m line opcode rest t] by simp
    have lt: "ic m < int (length program)"
      using h list_get_range [of program "ic m" line] by simp
    have "t < int (length program)"
      using h by simp
    then show ?thesis
      using c lt by simp
  qed
  have wrap: "list_get program (ic m) = Inr (program ! nat (ic m + int (length program))) \<and>
      cycle program m = execute (program ! nat (ic m + int (length program))) m"
    if "- int (length program) \<le> ic m \<and> ic m < 0"
  proof -
    have "list_get program (ic m) = Inr (program ! nat (ic m + int (length program)))"
      using that by (simp add: list_get_def)
    then show ?thesis
      by (simp add: cycle_execute)
  qed
  have below: "cycle program m = Inl IndexError" if "ic m < - int (length program)"
    using that by (simp add: cycle_def list_get_def)
  show ?thesis
    using upper lower branch wrap below by blast
qed

theorem fetch_bounds_witness:
  "list_all (\<lambda>i. 0 \<le> i \<and> i < 3)
     (fetched (Suc (Suc (Suc 0))) [''JMP 2'', ''HLT'', ''JMP 1''] (init_machine [] [])) \<and>
   cycle [''JMP 2'', ''HLT'', ''JMP 1''] ((init_machine [] [])\<lparr>ic := - 4\<rparr>) = Inl IndexError \<and>
   cycle [''JMP -1'', ''HLT''] (init_machine [] []) = Inr (Running, (init_machine [] [])\<lparr>ic := - 1\<rparr>) \<and>
   take 2 (fetched (Suc (Suc 0)) [''JMP -1'', ''HLT''] (init_machine [] [])) = [0, - 1] \<and>
   cycle [''JMP -1'', ''HLT''] ((init_machine [] [])\<lparr>ic := - 1\<rparr>) =
     Inr (Halted, (init_machine [] [])\<lparr>ic := - 2\<rparr>)"
proof -
  let ?p = "[''JMP 2'', ''HLT'', ''JMP 1'']"
  let ?q = "[''JMP -1'', ''HLT'']"
  let ?m = "init_machine [] []"
  have b: "branch_targets (Suc (Suc (Suc 0))) ?p ?m = [2, 1]"
    by code_simp
  have i: "0 \<le> ic ?m" and i0: "ic ?m = 0"
    by (simp_all add: init_machine_def)
  have t: "\<forall>t\<in>set (branch_targets (Suc (Suc (Suc 0))) ?p ?m). 0 \<le> t"
    unfolding b by simp
  have l: "int (length ?p) = 3" by simp
  have n: "ic (?m\<lparr>ic := - 4\<rparr>) < - int (length ?p)" by simp
  have 1: "list_all (\<lambda>i. 0 \<le> i \<and> i < 3) (fetched (Suc (Suc (Suc 0))) ?p ?m)"
    using fetch_bounds [of "Suc (Suc (Suc 0))" ?p ?m] i t
    unfolding l list_all_iff by blast
  have 2: "cycle ?p (?m\<lparr>ic := - 4\<rparr>) = Inl IndexError"
    using fetch_bounds [of 0 ?p "?m\<lparr>ic := - 4\<rparr>"] n by blast
  have g: "list_get ?q (ic ?m) = Inr ''JMP -1''"
    by (simp add: list_get_def init_machine_def)
  have sp: "py_split (py_strip ''JMP -1'') = ''JMP'' # [''-1'']"
    by code_simp
  have j: "CHR ''J'' \<in> set ''JMP''"
    by simp
  have jr: "jmp (py_strip ''JMP -1'') (ram ?m) (ic ?m) (flags ?m) = Inr (- 1)"
    by code_simp
  have 3: "cycle ?q ?m = Inr (Running, ?m\<lparr>ic := - 1\<rparr>) \<and>
      take 2 (fetched (Suc (Suc 0)) ?q ?m) = [ic ?m, - 1]"
    using fetch_bounds [where program = ?q and m = ?m and line = "''JMP -1''"
        and opcode = "''JMP''" and rest = "[''-1'']" and t = "- 1" and fuel = 0] g sp j jr
    by (simp del: fetched.simps)
  have w: "- int (length ?q) \<le> ic (?m\<lparr>ic := - 1\<rparr>) \<and> ic (?m\<lparr>ic := - 1\<rparr>) < 0"
    by simp
  have e: "execute ''HLT'' (?m\<lparr>ic := - 1\<rparr>) = Inr (Halted, ?m\<lparr>ic := - 2\<rparr>)"
    by code_simp
  have 4: "cycle ?q (?m\<lparr>ic := - 1\<rparr>) = Inr (Halted, ?m\<lparr>ic := - 2\<rparr>)"
    using fetch_bounds [where program = ?q and m = "?m\<lparr>ic := - 1\<rparr>"] w e
    by simp
  show ?thesis
    using 1 2 3 4 i0 by (simp del: fetched.simps)
qed

text \<open>
  C4 as stated fails: \<^verbatim>\<open>JMP -1\<close> sets the counter to \<open>-1\<close>, the test of the loop still
  holds, and the next pass fetches at \<open>-1\<close>, which Python reads as the last line.
\<close>

theorem negative_fetch_counterexample:
  "fetched 2 [''JMP -1''] (init_machine (create_ram 1) []) = [0, - 1] \<and>
   list_get [''JMP -1''] (- 1) = Inr ''JMP -1''"
  by code_simp

subsection \<open>Memory-indirect operands\<close>

text \<open>
  C5, as the code has it. A bracketed operand whose index is \<open>i\<close> raises IndexError when
  \<open>i \<ge> len(ram)\<close> or \<open>i < -len(ram)\<close>, yields \<open>ram[i]\<close> when \<open>0 \<le> i < len(ram)\<close>, and yields the
  cell counted from the end, \<open>ram[len(ram) + i]\<close>, when \<open>-len(ram) \<le> i < 0\<close>.
\<close>

theorem parse_value_bounds:
  assumes "CHR ''['' \<in> set v" and "CHR '']'' \<in> set v"
    and "py_int (strip_chars ''[]'' v) = Inr i"
  shows "(int (length mem) \<le> i \<or> i < - int (length mem) \<longrightarrow>
            parse_value v mem = Inl IndexError) \<and>
         (0 \<le> i \<and> i < int (length mem) \<longrightarrow> parse_value v mem = Inr (mem ! nat i)) \<and>
         (- int (length mem) \<le> i \<and> i < 0 \<longrightarrow>
            parse_value v mem = Inr (mem ! nat (i + int (length mem))))"
  using assms by (auto simp: parse_value_def list_get_def Let_def)

theorem parse_value_bounds_witness:
  "parse_value ''[3]'' [7, 8, 9] = Inl IndexError \<and>
   parse_value ''[-4]'' [7, 8, 9] = Inl IndexError \<and>
   parse_value ''[2]'' [7, 8, 9] = Inr 9 \<and> parse_value ''[-3]'' [7, 8, 9] = Inr 7"
proof -
  have b: "CHR ''['' \<in> set ''[3]''" "CHR '']'' \<in> set ''[3]''"
     "CHR ''['' \<in> set ''[-4]''" "CHR '']'' \<in> set ''[-4]''"
     "CHR ''['' \<in> set ''[2]''" "CHR '']'' \<in> set ''[2]''"
     "CHR ''['' \<in> set ''[-3]''" "CHR '']'' \<in> set ''[-3]''"
    by simp_all
  have 1: "py_int (strip_chars ''[]'' ''[3]'') = Inr 3" by code_simp
  have 2: "py_int (strip_chars ''[]'' ''[-4]'') = Inr (- 4)" by code_simp
  have 3: "py_int (strip_chars ''[]'' ''[2]'') = Inr 2" by code_simp
  have 4: "py_int (strip_chars ''[]'' ''[-3]'') = Inr (- 3)" by code_simp
  from parse_value_bounds [OF b(1,2) 1, of "[7, 8, 9]"]
    parse_value_bounds [OF b(3,4) 2, of "[7, 8, 9]"]
    parse_value_bounds [OF b(5,6) 3, of "[7, 8, 9]"]
    parse_value_bounds [OF b(7,8) 4, of "[7, 8, 9]"]
  show ?thesis by simp
qed

text \<open>
  C5 as stated fails: the index \<open>-1\<close> is negative, and \<^verbatim>\<open>[-1]\<close> yields the last cell.
\<close>

theorem parse_value_negative_index_counterexample:
  "py_int (strip_chars ''[]'' ''[-1]'') = Inr (- 1) \<and> parse_value ''[-1]'' [7, 8, 9] = Inr 9"
  by code_simp

end
